theory Spec2Isabelle
  imports Main
begin

section \<open>The file converter CLI (public/converter.py)\<close>

text \<open>
  The program is a command-line dispatcher over four conversion routines. Every routine
  is a short sequence of calls into third-party libraries (pdf2image, Pillow,
  python-docx, fpdf). The libraries are not part of the repository: they are taken as a
  parameter (the record \<open>lib\<close>), each call either raising an exception or returning a
  value. What the program itself does is modelled in full: the order of the calls, the
  paths it builds, what it prints, which exceptions it catches and which it lets through.
\<close>

subsection \<open>Strings of the Python standard library\<close>

type_synonym path = string
type_synonym bytes = string

text \<open>
  The text of a document is a Python \<^verbatim>\<open>str\<close> that may hold any character: it is the list
  of its Unicode code points. \<open>codepoints\<close> reads an ASCII literal as such a text, and
  \<open>latin1\<close> is \<^verbatim>\<open>s.encode('latin-1')\<close>, which raises \<^verbatim>\<open>UnicodeEncodeError\<close> on a code
  point above 255. (Paths and format names stay byte strings: the program only compares
  them with ASCII literals and concatenates them.)
\<close>

type_synonym ustring = "nat list"

definition codepoints :: "string \<Rightarrow> ustring" where
  "codepoints s = map of_char s"

text \<open>\<^verbatim>\<open>str.lower()\<close> and \<^verbatim>\<open>str.upper()\<close>, on ASCII letters.\<close>

definition char_lower :: "char \<Rightarrow> char" where
  "char_lower c =
     (case map_of (zip ''ABCDEFGHIJKLMNOPQRSTUVWXYZ'' ''abcdefghijklmnopqrstuvwxyz'') c of
        Some d \<Rightarrow> d
      | None \<Rightarrow> c)"

definition char_upper :: "char \<Rightarrow> char" where
  "char_upper c =
     (case map_of (zip ''abcdefghijklmnopqrstuvwxyz'' ''ABCDEFGHIJKLMNOPQRSTUVWXYZ'') c of
        Some d \<Rightarrow> d
      | None \<Rightarrow> c)"

definition lower :: "string \<Rightarrow> string" where
  "lower s = map char_lower s"

definition upper :: "string \<Rightarrow> string" where
  "upper s = map char_upper s"

text \<open>\<^verbatim>\<open>str(n)\<close> for a non-negative integer: its decimal digits.\<close>

definition digit :: "nat \<Rightarrow> char" where
  "digit d = ''0123456789'' ! d"

fun str :: "nat \<Rightarrow> string" where
  "str n = (if n < 10 then [digit n] else str (n div 10) @ [digit (n mod 10)])"

declare str.simps [simp del]

text \<open>
  \<^verbatim>\<open>p.rfind(c)\<close> for a single character: the highest index of \<open>c\<close> in \<open>p\<close>,
  or \<open>-1\<close> when \<open>c\<close> does not occur.
\<close>

definition rfind :: "string \<Rightarrow> char \<Rightarrow> int" where
  "rfind p c =
     (if c \<in> set p
      then int (length p) - 1 - int (length (takeWhile (\<lambda>x. x \<noteq> c) (rev p)))
      else - 1)"

text \<open>The slice \<^verbatim>\<open>p[i:j]\<close> for \<open>0 \<le> i\<close>, \<open>0 \<le> j\<close>.\<close>

definition slice :: "string \<Rightarrow> nat \<Rightarrow> nat \<Rightarrow> string" where
  "slice p i j = take (j - i) (drop i p)"

text \<open>
  \<^verbatim>\<open>os.path.join(a, b)\<close> of posixpath, for two components: an absolute \<open>b\<close> replaces
  \<open>a\<close>; otherwise the components are joined by one separator unless \<open>a\<close> is empty or
  already ends with one.
\<close>

definition join :: "path \<Rightarrow> path \<Rightarrow> path" where
  "join a b =
     (if take 1 b = ''/'' then b
      else if a = [] \<or> last a = CHR ''/'' then a @ b
      else a @ ''/'' @ b)"

text \<open>
  \<^verbatim>\<open>os.path.splitext(p)\<close> of posixpath (genericpath._splitext with separator \<open>/\<close>
  and extension separator \<open>.\<close>): the extension starts at the last dot, provided that dot
  comes after the last separator and some character between the separator and that dot
  is not a dot (the loop that skips all leading dots).
\<close>

definition splitext :: "path \<Rightarrow> path \<times> string" where
  "splitext p =
     (let sepIndex = rfind p (CHR ''/'');
          dotIndex = rfind p (CHR ''.'')
      in if dotIndex > sepIndex \<and>
            dropWhile (\<lambda>c. c = CHR ''.'') (slice p (nat (sepIndex + 1)) (nat dotIndex)) \<noteq> []
         then (take (nat dotIndex) p, drop (nat dotIndex) p)
         else (p, []))"

text \<open>
  \<^verbatim>\<open>os.path.basename(p)\<close> and \<^verbatim>\<open>os.path.dirname(p)\<close> of posixpath. The program does
  not call them; they say what "the directory" and "the base name" of a path are.
\<close>

definition basename :: "path \<Rightarrow> path" where
  "basename p = drop (nat (rfind p (CHR ''/'') + 1)) p"

definition rstrip_sep :: "path \<Rightarrow> path" where
  "rstrip_sep h = rev (dropWhile (\<lambda>c. c = CHR ''/'') (rev h))"

definition dirname :: "path \<Rightarrow> path" where
  "dirname p =
     (let head = take (nat (rfind p (CHR ''/'') + 1)) p
      in if head \<noteq> [] \<and> head \<noteq> replicate (length head) (CHR ''/'')
         then rstrip_sep head else head)"

subsection \<open>The world the program acts on\<close>

text \<open>A raised Python exception (an instance of \<^verbatim>\<open>Exception\<close>), with its \<^verbatim>\<open>str(e)\<close>.\<close>

datatype exn = Exception (message: string)

definition latin1 :: "ustring \<Rightarrow> exn + bytes" where
  "latin1 s =
     (if list_all (\<lambda>c. c < 256) s then Inr (map char_of s)
      else Inl (Exception ''latin-1 codec cannot encode character''))"

text \<open>The four conversion routines, for the log of the routines entered.\<close>

datatype routine = Pdf_to_image | Pdf_to_docx | Docx_to_pdf | Image_to_image

text \<open>
  The regular files with their contents, and the lines printed on standard output. Two
  logs are kept beside them: the paths written, oldest first, and the routines entered.
\<close>

record world =
  files :: "path \<rightharpoonup> bytes"
  stdout :: "string list"
  writes :: "path list"
  calls :: "routine list"

definition isfile :: "world \<Rightarrow> path \<Rightarrow> bool" where
  "isfile w p = (files w p \<noteq> None)"

definition print :: "string \<Rightarrow> world \<Rightarrow> world" where
  "print s w = w\<lparr>stdout := stdout w @ [s]\<rparr>"

definition write_file :: "path \<Rightarrow> bytes \<Rightarrow> world \<Rightarrow> world" where
  "write_file p b w = w\<lparr>files := (files w)(p \<mapsto> b), writes := writes w @ [p]\<rparr>"

definition called :: "routine \<Rightarrow> world \<Rightarrow> world" where
  "called r w = w\<lparr>calls := calls w @ [r]\<rparr>"

subsection \<open>The libraries\<close>

text \<open>A paragraph and a document of python-docx, as far as the program reads them.\<close>

datatype docx_paragraph = Paragraph (para_text: ustring)

datatype docx_document = Docx (paragraphs: "docx_paragraph list")

text \<open>
  An \<^verbatim>\<open>FPDF\<close> object is the sequence of the calls made on it since its construction;
  \<^verbatim>\<open>pdf.output(path)\<close> renders that sequence into the bytes of a file.
\<close>

datatype fpdf_op =
    Set_auto_page_break bool int
  | Add_page
  | Set_font string int
  | Multi_cell int int ustring

type_synonym fpdf = "fpdf_op list"

text \<open>
  The library calls of the program. Those that read the file system take the files as an
  argument. \<open>Image_save\<close> and \<open>FPDF_output\<close> give the bytes that end up in the file at
  the given path, or the exception raised instead; \<open>FPDF_call\<close> gives the exception a call
  on an \<^verbatim>\<open>FPDF\<close> object raises, if any.
\<close>

record 'img lib =
  convert_from_path :: "(path \<rightharpoonup> bytes) \<Rightarrow> path \<Rightarrow> exn + 'img list"
  Image_open :: "(path \<rightharpoonup> bytes) \<Rightarrow> path \<Rightarrow> exn + 'img"
  Image_save :: "(path \<rightharpoonup> bytes) \<Rightarrow> 'img \<Rightarrow> path \<Rightarrow> string \<Rightarrow> exn + bytes"
  Document :: "(path \<rightharpoonup> bytes) \<Rightarrow> path \<Rightarrow> exn + docx_document"
  FPDF_call :: "fpdf \<Rightarrow> fpdf_op \<Rightarrow> exn option"
  FPDF_output :: "(path \<rightharpoonup> bytes) \<Rightarrow> fpdf \<Rightarrow> path \<Rightarrow> exn + bytes"

text \<open>
  \<^verbatim>\<open>image.save(path, format)\<close>: on success the file at \<open>path\<close> holds the encoded image.
  When the call raises, the files are as before: a partly written file is not modelled.
\<close>

definition save :: "'img lib \<Rightarrow> 'img \<Rightarrow> path \<Rightarrow> string \<Rightarrow> world \<Rightarrow> (exn + unit) \<times> world" where
  "save lib img p fmt w =
     (case Image_save lib (files w) img p fmt of
        Inl e \<Rightarrow> (Inl e, w)
      | Inr b \<Rightarrow> (Inr (), write_file p b w))"

text \<open>A call on an \<^verbatim>\<open>FPDF\<close> object: it raises, or the object has one more call behind it.\<close>

definition fpdf_call :: "'img lib \<Rightarrow> fpdf_op \<Rightarrow> fpdf \<Rightarrow> exn + fpdf" where
  "fpdf_call lib op pdf =
     (case FPDF_call lib pdf op of
        Some e \<Rightarrow> Inl e
      | None \<Rightarrow> Inr (pdf @ [op]))"

subsection \<open>The conversion routines\<close>

text \<open>
  The loop of \<open>pdf_to_image\<close> over \<^verbatim>\<open>enumerate(images)\<close>: page \<open>i\<close> (counted from 0) is
  saved as \<^verbatim>\<open>output_{i + 1}.{output_format}\<close> in the output directory. The first save that
  raises ends the loop; the files written before it stay.
\<close>

fun save_images ::
  "'img lib \<Rightarrow> path \<Rightarrow> string \<Rightarrow> (nat \<times> 'img) list \<Rightarrow> world \<Rightarrow> (exn + unit) \<times> world" where
  "save_images lib output_dir output_format [] w = (Inr (), w)"
| "save_images lib output_dir output_format ((i, img) # rest) w =
     (case save lib img
             (join output_dir (''output_'' @ str (i + 1) @ ''.'' @ output_format))
             (upper output_format) w of
        (Inl e, w') \<Rightarrow> (Inl e, w')
      | (Inr u, w') \<Rightarrow> save_images lib output_dir output_format rest w')"

text \<open>The body of the \<^verbatim>\<open>try\<close> block of \<open>pdf_to_image\<close>.\<close>

definition pdf_to_image_body ::
  "'img lib \<Rightarrow> path \<Rightarrow> path \<Rightarrow> string \<Rightarrow> world \<Rightarrow> (exn + unit) \<times> world" where
  "pdf_to_image_body lib input_file output_dir output_format w =
     (case convert_from_path lib (files w) input_file of
        Inl e \<Rightarrow> (Inl e, w)
      | Inr images \<Rightarrow> save_images lib output_dir output_format (enumerate 0 images) w)"

definition pdf_to_image ::
  "'img lib \<Rightarrow> path \<Rightarrow> path \<Rightarrow> string \<Rightarrow> world \<Rightarrow> (exn + unit) \<times> world" where
  "pdf_to_image lib input_file output_dir output_format w =
     (case pdf_to_image_body lib input_file output_dir output_format (called Pdf_to_image w) of
        (Inl e, w') \<Rightarrow> (Inr (), print (''Error converting PDF to image: '' @ message e) w')
      | (Inr u, w') \<Rightarrow> (Inr (), w'))"

definition pdf_to_docx :: "path \<Rightarrow> path \<Rightarrow> world \<Rightarrow> (exn + unit) \<times> world" where
  "pdf_to_docx input_file output_file w =
     (Inr (), print ''PDF to DOCX conversion is not implemented yet.'' (called Pdf_to_docx w))"

text \<open>The loop of \<open>docx_to_pdf\<close> over \<^verbatim>\<open>doc.paragraphs\<close>.\<close>

fun add_paragraphs :: "'img lib \<Rightarrow> docx_paragraph list \<Rightarrow> fpdf \<Rightarrow> exn + fpdf" where
  "add_paragraphs lib [] pdf = Inr pdf"
| "add_paragraphs lib (para # rest) pdf =
     (case fpdf_call lib (Set_font ''Arial'' 12) pdf of
        Inl e \<Rightarrow> Inl e
      | Inr pdf1 \<Rightarrow>
          (case fpdf_call lib (Multi_cell 0 10 (para_text para)) pdf1 of
             Inl e \<Rightarrow> Inl e
           | Inr pdf2 \<Rightarrow> add_paragraphs lib rest pdf2))"

text \<open>\<open>docx_to_pdf\<close> has no \<^verbatim>\<open>try\<close> block: an exception of any call leaves the routine.\<close>

definition docx_to_pdf ::
  "'img lib \<Rightarrow> path \<Rightarrow> path \<Rightarrow> world \<Rightarrow> (exn + unit) \<times> world" where
  "docx_to_pdf lib input_file output_file w0 =
     (let w = called Docx_to_pdf w0 in
      case Document lib (files w) input_file of
        Inl e \<Rightarrow> (Inl e, w)
      | Inr doc \<Rightarrow>
      (case fpdf_call lib (Set_auto_page_break True 15) [] of
        Inl e \<Rightarrow> (Inl e, w)
      | Inr pdf1 \<Rightarrow>
      (case fpdf_call lib Add_page pdf1 of
        Inl e \<Rightarrow> (Inl e, w)
      | Inr pdf2 \<Rightarrow>
      (case add_paragraphs lib (paragraphs doc) pdf2 of
        Inl e \<Rightarrow> (Inl e, w)
      | Inr pdf3 \<Rightarrow>
      (case FPDF_output lib (files w) pdf3 output_file of
        Inl e \<Rightarrow> (Inl e, w)
      | Inr b \<Rightarrow> (Inr (), write_file output_file b w))))))"

text \<open>The body of the \<^verbatim>\<open>try\<close> block of \<open>image_to_image\<close>.\<close>

definition image_to_image_body ::
  "'img lib \<Rightarrow> path \<Rightarrow> string \<Rightarrow> world \<Rightarrow> (exn + unit) \<times> world" where
  "image_to_image_body lib input_file output_format w =
     (case Image_open lib (files w) input_file of
        Inl e \<Rightarrow> (Inl e, w)
      | Inr img \<Rightarrow>
          (let output_file = fst (splitext input_file) @ ''.'' @ output_format
           in save lib img output_file (upper output_format) w))"

definition image_to_image ::
  "'img lib \<Rightarrow> path \<Rightarrow> string \<Rightarrow> world \<Rightarrow> (exn + unit) \<times> world" where
  "image_to_image lib input_file output_format w =
     (case image_to_image_body lib input_file output_format (called Image_to_image w) of
        (Inl e, w') \<Rightarrow> (Inr (), print (''Error converting image: '' @ message e) w')
      | (Inr u, w') \<Rightarrow> (Inr (), w'))"

subsection \<open>The entry point\<close>

text \<open>
  The namespace \<^verbatim>\<open>parser.parse_args()\<close> returns: \<^verbatim>\<open>--input\<close> and
  \<^verbatim>\<open>--output_format\<close> are required, \<^verbatim>\<open>--output_dir\<close> is \<^verbatim>\<open>'.'\<close> when not given.
\<close>

record args =
  args_input :: path
  args_output_format :: string
  args_output_dir :: path

definition main :: "'img lib \<Rightarrow> args \<Rightarrow> world \<Rightarrow> (exn + unit) \<times> world" where
  "main lib args w =
     (let input_file = args_input args;
          output_format = lower (args_output_format args);
          output_dir = args_output_dir args
      in if \<not> isfile w input_file then (Inr (), print ''Error: Input file not found.'' w)
         else if output_format = ''jpg'' \<or> output_format = ''png''
           then pdf_to_image lib input_file output_dir output_format w
         else if output_format = ''docx''
           then pdf_to_docx input_file (join output_dir ''output.docx'') w
         else if output_format = ''pdf''
           then docx_to_pdf lib input_file (join output_dir ''output.pdf'') w
         else if output_format \<in> set [''jpg'', ''png'']
           then image_to_image lib input_file output_format w
         else (Inr (), print ''Error: Unsupported output format.'' w))"

text \<open>
  The exit status of the process: 0 when \<open>main\<close> returns, 1 when an exception leaves it
  (the interpreter prints the traceback and exits with status 1).
\<close>

definition exit_code :: "(exn + unit) \<times> world \<Rightarrow> nat" where
  "exit_code r = (case fst r of Inl e \<Rightarrow> 1 | Inr u \<Rightarrow> 0)"

text \<open>What a run added to the logs and to the standard output of the world it started in.\<close>

definition new_calls :: "world \<Rightarrow> (exn + unit) \<times> world \<Rightarrow> routine list" where
  "new_calls w r = drop (length (calls w)) (calls (snd r))"

definition new_writes :: "world \<Rightarrow> (exn + unit) \<times> world \<Rightarrow> path list" where
  "new_writes w r = drop (length (writes w)) (writes (snd r))"

definition new_stdout :: "world \<Rightarrow> (exn + unit) \<times> world \<Rightarrow> string list" where
  "new_stdout w r = drop (length (stdout w)) (stdout (snd r))"

subsection \<open>Reading an \<^verbatim>\<open>FPDF\<close> object\<close>

text \<open>
  The cells placed on the document, in order, each with the font (family and size in
  points) that was selected when it was placed, starting from the font \<open>cur\<close>; the
  texts of the cells; the number of pages the program added itself.
\<close>

fun placed_cells :: "(string \<times> int) option \<Rightarrow> fpdf \<Rightarrow> ((string \<times> int) option \<times> ustring) list" where
  "placed_cells cur [] = []"
| "placed_cells cur (Set_font family pt # rest) = placed_cells (Some (family, pt)) rest"
| "placed_cells cur (Multi_cell w h txt # rest) = (cur, txt) # placed_cells cur rest"
| "placed_cells cur (Set_auto_page_break auto margin # rest) = placed_cells cur rest"
| "placed_cells cur (Add_page # rest) = placed_cells cur rest"

definition cell_texts :: "fpdf \<Rightarrow> ustring list" where
  "cell_texts pdf = map snd (placed_cells None pdf)"

definition pages_added :: "fpdf \<Rightarrow> nat" where
  "pages_added pdf = length (filter (\<lambda>op. op = Add_page) pdf)"

subsection \<open>An example world and example libraries\<close>

text \<open>
  A file system with a PDF of two pages, a DOCX of two paragraphs, a DOCX without
  paragraphs, a DOCX of one paragraph with the Greek letter omega (code point 937) in
  it, a text file and a picture, and libraries that read them: images are described by a
  string, a saved image is its format name and its description, and a rendered PDF is
  the text of its cells, one byte for each character. These libraries never refuse to
  save or to render.
\<close>

definition example_world :: world where
  "example_world =
     \<lparr>files = [''in.pdf'' \<mapsto> ''%PDF two pages'',
               ''letter.docx'' \<mapsto> ''PK letter'',
               ''empty.docx'' \<mapsto> ''PK empty'',
               ''greek.docx'' \<mapsto> ''PK greek'',
               ''notes.txt'' \<mapsto> ''plain text'',
               ''pics/photo.png'' \<mapsto> ''PNG photo''],
      stdout = [], writes = [], calls = []\<rparr>"

definition example_lib :: "string lib" where
  "example_lib =
     \<lparr>convert_from_path = (\<lambda>fs p.
        if fs p = Some ''%PDF two pages'' then Inr [''page one'', ''page two'']
        else Inl (Exception ''Unable to get page count.'')),
      Image_open = (\<lambda>fs p.
        if fs p = Some ''PNG photo'' then Inr ''photo''
        else Inl (Exception ''cannot identify image file'')),
      Image_save = (\<lambda>fs img p fmt. Inr (fmt @ '' '' @ img)),
      Document = (\<lambda>fs p.
        if fs p = Some ''PK letter''
          then Inr (Docx [Paragraph (codepoints ''Dear reader,''), Paragraph (codepoints ''Bye.'')])
        else if fs p = Some ''PK empty'' then Inr (Docx [])
        else if fs p = Some ''PK greek'' then Inr (Docx [Paragraph (codepoints ''R = 2 '' @ [937])])
        else Inl (Exception ''Package not found'')),
      FPDF_call = (\<lambda>pdf op. None),
      FPDF_output = (\<lambda>fs pdf p. Inr (map char_of (concat (cell_texts pdf))))\<rparr>"

text \<open>
  The same libraries with the two refusals of the real ones. As Pillow does,
  \<^verbatim>\<open>image.save\<close> looks the format name up among the registered ones and raises
  \<^verbatim>\<open>KeyError\<close> for any other: the JPEG encoder is registered as \<^verbatim>\<open>JPEG\<close>, and
  \<^verbatim>\<open>JPG\<close> is no format name; the message of the exception is the name between quotes.
  As fpdf does with its core fonts, \<^verbatim>\<open>pdf.output\<close> encodes the text in Latin-1 and
  raises on a text with a character outside it.
\<close>

definition strict_lib :: "string lib" where
  "strict_lib =
     example_lib\<lparr>
       Image_save := (\<lambda>fs img p fmt.
         if fmt \<in> set [''BMP'', ''GIF'', ''JPEG'', ''PNG'', ''TIFF''] then Inr (fmt @ '' '' @ img)
         else Inl (Exception ([CHR 0x27] @ fmt @ [CHR 0x27]))),
       FPDF_output := (\<lambda>fs pdf p. latin1 (concat (cell_texts pdf)))\<rparr>"

section \<open>Properties\<close>

subsection \<open>The logs of the routines\<close>

lemma example_world_logs:
  "stdout example_world = []" "writes example_world = []" "calls example_world = []"
  by (simp_all add: example_world_def)

lemma save_logs:
  "save lib img p f w = (r, w') \<Longrightarrow> calls w' = calls w \<and> stdout w' = stdout w"
  by (auto simp: save_def write_file_def split: sum.splits)

lemma save_images_logs:
  "save_images lib d f xs w = (r, w') \<Longrightarrow> calls w' = calls w \<and> stdout w' = stdout w"
proof (induction xs arbitrary: w)
  case Nil
  then show ?case by simp
next
  case (Cons x xs)
  obtain i img where x: "x = (i, img)" by (cases x)
  obtain r1 w1 where
    s: "save lib img (join d (''output_'' @ str (i + 1) @ ''.'' @ f)) (upper f) w = (r1, w1)"
    by (cases "save lib img (join d (''output_'' @ str (i + 1) @ ''.'' @ f)) (upper f) w")
  note l = save_logs [OF s]
  show ?case
  proof (cases r1)
    case (Inl e)
    with Cons.prems s l show ?thesis by (simp add: x)
  next
    case (Inr u)
    with Cons.prems s have "save_images lib d f xs w1 = (r, w')" by (simp add: x)
    from Cons.IH [OF this] l show ?thesis by simp
  qed
qed

lemma pdf_to_image_body_logs:
  "pdf_to_image_body lib i d f w = (r, w') \<Longrightarrow> calls w' = calls w \<and> stdout w' = stdout w"
  by (auto simp: pdf_to_image_body_def split: sum.splits dest: save_images_logs)

lemma pdf_to_image_calls: "calls (snd (pdf_to_image lib i d f w)) = calls w @ [Pdf_to_image]"
  by (auto simp: pdf_to_image_def print_def called_def
      split: prod.splits sum.splits dest!: pdf_to_image_body_logs)

lemma pdf_to_docx_calls: "calls (snd (pdf_to_docx i out w)) = calls w @ [Pdf_to_docx]"
  by (simp add: pdf_to_docx_def print_def called_def)

lemma docx_to_pdf_calls: "calls (snd (docx_to_pdf lib i out w)) = calls w @ [Docx_to_pdf]"
  by (simp add: docx_to_pdf_def Let_def called_def write_file_def split: sum.splits)

lemma image_to_image_body_logs:
  "image_to_image_body lib i f w = (r, w') \<Longrightarrow> calls w' = calls w \<and> stdout w' = stdout w"
  by (auto simp: image_to_image_body_def Let_def split: sum.splits dest: save_logs)

lemma image_to_image_calls:
  "calls (snd (image_to_image lib i f w)) = calls w @ [Image_to_image]"
  by (auto simp: image_to_image_def print_def called_def
      split: prod.splits sum.splits dest!: image_to_image_body_logs)

text \<open>The routine \<open>main\<close> enters, read off the log.\<close>

lemma main_new_calls:
  "new_calls w (main lib a w) =
     (if \<not> isfile w (args_input a) then []
      else if lower (args_output_format a) = ''jpg'' \<or> lower (args_output_format a) = ''png''
        then [Pdf_to_image]
      else if lower (args_output_format a) = ''docx'' then [Pdf_to_docx]
      else if lower (args_output_format a) = ''pdf'' then [Docx_to_pdf]
      else [])"
  by (simp add: main_def new_calls_def Let_def pdf_to_image_calls pdf_to_docx_calls
      docx_to_pdf_calls image_to_image_calls print_def)

subsection \<open>A missing input file\<close>

text \<open>
  Claim C5. When the input path does not name an existing file, \<open>main\<close> prints
  "Error: Input file not found." and returns: that line is the only change to the world,
  so no conversion routine is entered and no file is written or changed.
\<close>

theorem main_input_not_found:
  assumes "\<not> isfile w (args_input a)"
  shows "main lib a w = (Inr (), w\<lparr>stdout := stdout w @ [''Error: Input file not found.'']\<rparr>) \<and>
         new_calls w (main lib a w) = [] \<and>
         new_writes w (main lib a w) = [] \<and>
         files (snd (main lib a w)) = files w"
  using assms by (simp add: main_def print_def new_calls_def new_writes_def)

theorem main_input_not_found_witness:
  "\<not> isfile example_world ''nowhere.pdf'' \<and>
   main example_lib
     \<lparr>args_input = ''nowhere.pdf'', args_output_format = ''png'', args_output_dir = ''.''\<rparr>
     example_world =
   (Inr (), example_world\<lparr>stdout := [''Error: Input file not found.'']\<rparr>)"
proof -
  let ?a = "\<lparr>args_input = ''nowhere.pdf'', args_output_format = ''png'', args_output_dir = ''.''\<rparr>"
  have h: "\<not> isfile example_world (args_input ?a)"
    by (simp add: isfile_def example_world_def)
  from main_input_not_found [OF h, of example_lib] h show ?thesis
    by (simp add: example_world_def)
qed

subsection \<open>The PDF-to-DOCX stub\<close>

text \<open>
  Claim C4. For an existing input file and the format \<open>docx\<close> (in any letter case),
  \<open>main\<close> prints the not-implemented line and returns; apart from that line and the
  entry in the log of routines the world is unchanged: no file is written or changed.
\<close>

theorem main_docx_not_implemented:
  assumes "isfile w (args_input a)" and "lower (args_output_format a) = ''docx''"
  shows "main lib a w =
           (Inr (), w\<lparr>stdout := stdout w @ [''PDF to DOCX conversion is not implemented yet.''],
                      calls := calls w @ [Pdf_to_docx]\<rparr>) \<and>
         files (snd (main lib a w)) = files w \<and>
         new_writes w (main lib a w) = []"
  using assms by (simp add: main_def print_def called_def pdf_to_docx_def new_writes_def)

theorem main_docx_not_implemented_witness:
  "isfile example_world ''in.pdf'' \<and> lower ''DocX'' = ''docx'' \<and>
   main example_lib
     \<lparr>args_input = ''in.pdf'', args_output_format = ''DocX'', args_output_dir = ''out''\<rparr>
     example_world =
   (Inr (), example_world\<lparr>stdout := [''PDF to DOCX conversion is not implemented yet.''],
                          calls := [Pdf_to_docx]\<rparr>)"
proof -
  let ?a = "\<lparr>args_input = ''in.pdf'', args_output_format = ''DocX'', args_output_dir = ''out''\<rparr>"
  have h1: "isfile example_world (args_input ?a)"
    by (simp add: isfile_def example_world_def)
  have h2: "lower (args_output_format ?a) = ''docx''"
    by (simp add: lower_def char_lower_def)
  from main_docx_not_implemented [OF h1 h2, of example_lib] h1 h2 show ?thesis
    by (simp add: example_world_def)
qed

subsection \<open>The dead branch\<close>

text \<open>
  Claim C6. Whatever the arguments, the libraries and the world, \<open>main\<close> never enters
  \<open>image_to_image\<close>: the formats \<open>jpg\<close> and \<open>png\<close> of the fourth test are taken by
  the first one.
\<close>

theorem main_never_image_to_image:
  "Image_to_image \<notin> set (new_calls w (main lib a w))"
  by (simp add: main_new_calls)

subsection \<open>Exceptions and the exit status\<close>

text \<open>The two routines with a \<^verbatim>\<open>try\<close> block return whatever the libraries do.\<close>

lemma pdf_to_image_returns: "fst (pdf_to_image lib i d f w) = Inr ()"
  by (simp add: pdf_to_image_def split: prod.splits sum.splits)

lemma image_to_image_returns: "fst (image_to_image lib i f w) = Inr ()"
  by (simp add: image_to_image_def split: prod.splits sum.splits)

text \<open>
  Claim C1. The claim is that every failure inside a conversion routine is caught there,
  so that the process always exits with status 0, also for \<open>docx_to_pdf\<close> on an input
  that is not a DOCX file. The code does not do that: \<open>docx_to_pdf\<close> has no
  \<^verbatim>\<open>try\<close> block. When \<^verbatim>\<open>Document(input_file)\<close> raises, the exception leaves
  \<open>main\<close>, nothing is printed by the program, and the exit status is 1.
\<close>

theorem main_docx_to_pdf_raises:
  assumes "isfile w (args_input a)" and "lower (args_output_format a) = ''pdf''"
    and "Document lib (files w) (args_input a) = Inl e"
  shows "main lib a w = (Inl e, w\<lparr>calls := calls w @ [Docx_to_pdf]\<rparr>) \<and>
         exit_code (main lib a w) = 1 \<and>
         new_stdout w (main lib a w) = []"
  using assms
  by (simp add: main_def docx_to_pdf_def called_def Let_def exit_code_def new_stdout_def)

theorem main_docx_to_pdf_raises_witness:
  "isfile example_world ''notes.txt'' \<and> lower ''pdf'' = ''pdf'' \<and>
   Document example_lib (files example_world) ''notes.txt'' = Inl (Exception ''Package not found'') \<and>
   main example_lib
     \<lparr>args_input = ''notes.txt'', args_output_format = ''pdf'', args_output_dir = ''.''\<rparr>
     example_world =
   (Inl (Exception ''Package not found''), example_world\<lparr>calls := [Docx_to_pdf]\<rparr>) \<and>
   exit_code (main example_lib
     \<lparr>args_input = ''notes.txt'', args_output_format = ''pdf'', args_output_dir = ''.''\<rparr>
     example_world) = 1"
proof -
  let ?a = "\<lparr>args_input = ''notes.txt'', args_output_format = ''pdf'', args_output_dir = ''.''\<rparr>"
  have h1: "isfile example_world (args_input ?a)"
    by (simp add: isfile_def example_world_def)
  have h2: "lower (args_output_format ?a) = ''pdf''"
    by (simp add: lower_def char_lower_def)
  have h3: "Document example_lib (files example_world) (args_input ?a) = Inl (Exception ''Package not found'')"
    by (simp add: example_lib_def example_world_def)
  from main_docx_to_pdf_raises [OF h1 h2 h3] h1 h2 h3 show ?thesis
    by (simp add: example_world_logs exit_code_def)
qed

subsection \<open>The dispatch\<close>

text \<open>When no routine is entered, one of the two diagnostics of \<open>main\<close> is printed.\<close>

lemma main_quiet_stdout:
  "new_calls w (main lib a w) = [] \<Longrightarrow>
   new_stdout w (main lib a w) =
     (if isfile w (args_input a) then [''Error: Unsupported output format.'']
      else [''Error: Input file not found.''])"
proof -
  assume "new_calls w (main lib a w) = []"
  then have "\<not> isfile w (args_input a) \<or>
      (lower (args_output_format a) \<noteq> ''jpg'' \<and> lower (args_output_format a) \<noteq> ''png'' \<and>
       lower (args_output_format a) \<noteq> ''docx'' \<and> lower (args_output_format a) \<noteq> ''pdf'')"
    by (simp add: main_new_calls split: if_splits)
  then show ?thesis
    by (auto simp: main_def new_stdout_def print_def Let_def)
qed

text \<open>
  Claim C7, amended. For two invocations whose formats are equal up to letter case and
  whose input paths agree on naming an existing file, \<open>main\<close> takes the same branch:
  it enters the same routine, or it enters none and prints the same diagnostic. This
  holds whatever the input paths, the contents of the files, the output directories and
  the libraries are.
\<close>

theorem main_branch_by_format:
  assumes "lower (args_output_format a1) = lower (args_output_format a2)"
    and "isfile w1 (args_input a1) = isfile w2 (args_input a2)"
  shows "new_calls w1 (main lib1 a1 w1) = new_calls w2 (main lib2 a2 w2) \<and>
         (new_calls w1 (main lib1 a1 w1) = [] \<longrightarrow>
            new_stdout w1 (main lib1 a1 w1) = new_stdout w2 (main lib2 a2 w2))"
proof -
  have c: "new_calls w1 (main lib1 a1 w1) = new_calls w2 (main lib2 a2 w2)"
    using assms by (simp add: main_new_calls)
  show ?thesis
  proof (intro conjI impI)
    show "new_calls w1 (main lib1 a1 w1) = new_calls w2 (main lib2 a2 w2)" by (fact c)
  next
    assume e: "new_calls w1 (main lib1 a1 w1) = []"
    with c have e2: "new_calls w2 (main lib2 a2 w2) = []" by simp
    from main_quiet_stdout [OF e] main_quiet_stdout [OF e2] assms(2)
    show "new_stdout w1 (main lib1 a1 w1) = new_stdout w2 (main lib2 a2 w2)" by simp
  qed
qed

theorem main_branch_by_format_witness:
  "lower ''PNG'' = lower ''png'' \<and>
   isfile example_world ''in.pdf'' = isfile example_world ''notes.txt'' \<and>
   new_calls example_world (main example_lib
     \<lparr>args_input = ''in.pdf'', args_output_format = ''PNG'', args_output_dir = ''out''\<rparr>
     example_world) =
   new_calls example_world (main example_lib
     \<lparr>args_input = ''notes.txt'', args_output_format = ''png'', args_output_dir = ''.''\<rparr>
     example_world)"
proof -
  let ?a1 = "\<lparr>args_input = ''in.pdf'', args_output_format = ''PNG'', args_output_dir = ''out''\<rparr>"
  let ?a2 = "\<lparr>args_input = ''notes.txt'', args_output_format = ''png'', args_output_dir = ''.''\<rparr>"
  have h1: "lower (args_output_format ?a1) = lower (args_output_format ?a2)"
    by (simp add: lower_def char_lower_def)
  have h2: "isfile example_world (args_input ?a1) = isfile example_world (args_input ?a2)"
    by (simp add: isfile_def example_world_def)
  from main_branch_by_format [OF h1 h2, of example_lib example_lib] h1 h2 show ?thesis
    by simp
qed

text \<open>
  As the claim is stated, for any two invocations with the same format, it fails: with the
  format \<open>png\<close> an existing input enters \<open>pdf_to_image\<close>, a missing one enters
  no routine.
\<close>

theorem main_branch_counterexample:
  "lower ''png'' = lower ''PNG'' \<and>
   new_calls example_world (main example_lib
     \<lparr>args_input = ''in.pdf'', args_output_format = ''png'', args_output_dir = ''.''\<rparr>
     example_world) = [Pdf_to_image] \<and>
   new_calls example_world (main example_lib
     \<lparr>args_input = ''nowhere.pdf'', args_output_format = ''PNG'', args_output_dir = ''.''\<rparr>
     example_world) = []"
  by (simp add: main_new_calls isfile_def example_world_def lower_def char_lower_def)

subsection \<open>The pages of a PDF\<close>

lemma digit_inj: "a < 10 \<Longrightarrow> b < 10 \<Longrightarrow> digit a = digit b \<Longrightarrow> a = b"
proof -
  assume a: "a < 10" and b: "b < 10" and e: "digit a = digit b"
  have d: "distinct ''0123456789''" by simp
  have "a < length ''0123456789''" "b < length ''0123456789''" using a b by simp_all
  with d e show "a = b" unfolding digit_def by (simp only: nth_eq_iff_index_eq)
qed

lemma str_nonempty: "str n \<noteq> []"
  by (subst str.simps) simp

lemma str_inj: "str m = str n \<Longrightarrow> m = n"
proof (induction m arbitrary: n rule: str.induct)
  case (1 m)
  show ?case
  proof (cases "m < 10")
    case True
    then have m: "str m = [digit m]" by (subst str.simps) simp
    show ?thesis
    proof (cases "n < 10")
      case True
      then have "str n = [digit n]" by (subst str.simps) simp
      with m "1.prems" have "digit m = digit n" by simp
      with \<open>m < 10\<close> \<open>n < 10\<close> show ?thesis by (rule digit_inj)
    next
      case False
      then have "str n = str (n div 10) @ [digit (n mod 10)]" by (subst str.simps) simp
      with m "1.prems" have "str (n div 10) = []" by simp
      with str_nonempty show ?thesis by blast
    qed
  next
    case False
    then have m: "str m = str (m div 10) @ [digit (m mod 10)]" by (subst str.simps) simp
    show ?thesis
    proof (cases "n < 10")
      case True
      then have "str n = [digit n]" by (subst str.simps) simp
      with m "1.prems" have "str (m div 10) = []" by simp
      with str_nonempty show ?thesis by blast
    next
      case nf: False
      then have "str n = str (n div 10) @ [digit (n mod 10)]" by (subst str.simps) simp
      with m "1.prems" have e: "str (m div 10) = str (n div 10)" "digit (m mod 10) = digit (n mod 10)"
        by simp_all
      from "1.IH" [OF False e(1)] have d: "m div 10 = n div 10" .
      have "m mod 10 = n mod 10" by (rule digit_inj [OF _ _ e(2)]) simp_all
      with d show ?thesis by (metis div_mult_mod_eq)
    qed
  qed
qed

lemma join_relative:
  "take 1 b \<noteq> ''/'' \<Longrightarrow> join d b = (if d = [] \<or> last d = CHR ''/'' then d else d @ ''/'') @ b"
  by (simp add: join_def)

lemma page_path_inj:
  "join d (''output_'' @ str m @ ''.'' @ f) = join d (''output_'' @ str n @ ''.'' @ f) \<Longrightarrow> m = n"
proof -
  assume e: "join d (''output_'' @ str m @ ''.'' @ f) = join d (''output_'' @ str n @ ''.'' @ f)"
  have "take 1 (''output_'' @ str k @ ''.'' @ f) \<noteq> ''/''" for k by simp
  from e have "str m @ ''.'' @ f = str n @ ''.'' @ f"
    by (simp add: join_relative)
  then have "str m = str n" by simp
  then show ?thesis by (rule str_inj)
qed

lemma page_paths_distinct:
  "distinct (map (\<lambda>n. join d (''output_'' @ str n @ ''.'' @ f)) [1..<Suc k])"
proof -
  have "inj_on (\<lambda>n. join d (''output_'' @ str n @ ''.'' @ f)) (set [1..<Suc k])"
    by (rule inj_onI) (rule page_path_inj)
  then show ?thesis by (simp only: distinct_map distinct_upt simp_thms)
qed

lemma save_writes:
  "save lib img p f w = (Inr u, w') \<Longrightarrow>
     writes w' = writes w @ [p] \<and> dom (files w') = insert p (dom (files w))"
  by (auto simp: save_def write_file_def split: sum.splits)

lemma save_images_writes:
  "save_images lib d f xs w = (Inr u, w') \<Longrightarrow>
     writes w' = writes w @ map (\<lambda>(i, img). join d (''output_'' @ str (i + 1) @ ''.'' @ f)) xs \<and>
     dom (files w') =
       dom (files w) \<union> set (map (\<lambda>(i, img). join d (''output_'' @ str (i + 1) @ ''.'' @ f)) xs)"
proof (induction xs arbitrary: w)
  case Nil
  then show ?case by simp
next
  case (Cons x xs)
  obtain i img where x: "x = (i, img)" by (cases x)
  let ?p = "join d (''output_'' @ str (i + 1) @ ''.'' @ f)"
  obtain r1 w1 where s: "save lib img ?p (upper f) w = (r1, w1)"
    by (cases "save lib img ?p (upper f) w")
  show ?case
  proof (cases r1)
    case (Inl e)
    with Cons.prems s show ?thesis by (simp add: x)
  next
    case (Inr v)
    with Cons.prems s have "save_images lib d f xs w1 = (Inr u, w')" by (simp add: x)
    from Cons.IH [OF this] save_writes [OF s [unfolded Inr]] show ?thesis by (auto simp: x)
  qed
qed

lemma save_images_succeeds:
  "(\<And>fs img p. img \<in> snd ` set xs \<Longrightarrow> \<exists>b. Image_save lib fs img p (upper f) = Inr b) \<Longrightarrow>
     fst (save_images lib d f xs w) = Inr ()"
proof (induction xs arbitrary: w)
  case Nil
  then show ?case by simp
next
  case (Cons x xs)
  obtain i img where x: "x = (i, img)" by (cases x)
  let ?p = "join d (''output_'' @ str (i + 1) @ ''.'' @ f)"
  from Cons.prems [of img "files w" ?p] obtain b where b: "Image_save lib (files w) img ?p (upper f) = Inr b"
    by (auto simp: x)
  have "fst (save_images lib d f xs (write_file ?p b w)) = Inr ()"
    by (rule Cons.IH) (use Cons.prems in auto)
  with b show ?case by (simp add: x save_def)
qed

lemma enumerate_paths:
  "map (\<lambda>(i, img). g (i + 1)) (enumerate 0 xs) = map g [1..<Suc (length xs)]"
proof -
  have "map (\<lambda>(i, img). g (i + 1)) (enumerate 0 xs) =
        map (\<lambda>i. g (i + 1)) (map fst (enumerate 0 xs))"
    by (simp only: map_map comp_def case_prod_unfold)
  also have "\<dots> = map (\<lambda>i. g (i + 1)) [0..<length xs]"
    by (simp only: map_fst_enumerate add_0)
  also have "\<dots> = map g (map Suc [0..<length xs])"
    by (simp only: map_map comp_def Suc_eq_plus1)
  also have "\<dots> = map g [1..<Suc (length xs)]"
    by (simp only: map_Suc_upt One_nat_def)
  finally show ?thesis .
qed


text \<open>A file written for a page holds that page: later saves go to other paths.\<close>

lemma save_images_other_files:
  "save_images lib d f xs w = (r, w') \<Longrightarrow>
     p \<notin> set (map (\<lambda>(i, img). join d (''output_'' @ str (i + 1) @ ''.'' @ f)) xs) \<Longrightarrow>
     files w' p = files w p"
proof (induction xs arbitrary: w)
  case Nil
  then show ?case by simp
next
  case (Cons x xs)
  obtain i img where x: "x = (i, img)" by (cases x)
  let ?p = "join d (''output_'' @ str (i + 1) @ ''.'' @ f)"
  from Cons.prems(2) have np: "p \<noteq> ?p"
    and nx: "p \<notin> set (map (\<lambda>(i, img). join d (''output_'' @ str (i + 1) @ ''.'' @ f)) xs)"
    by (simp_all add: x)
  obtain r1 w1 where s: "save lib img ?p (upper f) w = (r1, w1)"
    by (cases "save lib img ?p (upper f) w")
  have f1: "files w1 p = files w p"
    using s np by (auto simp: save_def write_file_def split: sum.splits)
  show ?case
  proof (cases r1)
    case (Inl e)
    with Cons.prems(1) s f1 show ?thesis by (simp add: x)
  next
    case (Inr v)
    with Cons.prems(1) s have "save_images lib d f xs w1 = (r, w')" by (simp add: x)
    from Cons.IH [OF this nx] f1 show ?thesis by simp
  qed
qed

lemma save_images_contents:
  "save_images lib d f xs w = (Inr u, w') \<Longrightarrow> distinct (map fst xs) \<Longrightarrow> (i, img) \<in> set xs \<Longrightarrow>
     \<exists>fs b. Image_save lib fs img (join d (''output_'' @ str (i + 1) @ ''.'' @ f)) (upper f) = Inr b \<and>
            files w' (join d (''output_'' @ str (i + 1) @ ''.'' @ f)) = Some b"
proof (induction xs arbitrary: w)
  case Nil
  then show ?case by simp
next
  case (Cons x xs)
  obtain j im where x: "x = (j, im)" by (cases x)
  let ?p = "\<lambda>k. join d (''output_'' @ str (k + 1) @ ''.'' @ f)"
  obtain r1 w1 where s: "save lib im (?p j) (upper f) w = (r1, w1)"
    by (cases "save lib im (?p j) (upper f) w")
  from Cons.prems(1) s obtain v where r1: "r1 = Inr v" by (cases r1) (simp_all add: x)
  from Cons.prems(1) s r1 have rest: "save_images lib d f xs w1 = (Inr u, w')" by (simp add: x)
  from s r1 obtain b where b: "Image_save lib (files w) im (?p j) (upper f) = Inr b"
    and w1: "files w1 (?p j) = Some b"
    by (auto simp: save_def write_file_def split: sum.splits)
  from Cons.prems(2) have dj: "j \<notin> fst ` set xs" and dx: "distinct (map fst xs)"
    by (simp_all add: x)
  show ?case
  proof (cases "(i, img) = (j, im)")
    case True
    have "?p j \<notin> set (map (\<lambda>(i, img). ?p i) xs)"
    proof
      assume "?p j \<in> set (map (\<lambda>(i, img). ?p i) xs)"
      then obtain k im' where k: "(k, im') \<in> set xs" "?p j = ?p k" by auto
      from page_path_inj [OF k(2)] have "j = k" by simp
      with k(1) dj show False by force
    qed
    from save_images_other_files [OF rest this] w1 have "files w' (?p j) = Some b" by simp
    with b True show ?thesis by blast
  next
    case False
    with Cons.prems(3) have "(i, img) \<in> set xs" by (auto simp: x)
    from Cons.IH [OF rest dx this] show ?thesis .
  qed
qed

lemma pdf_to_image_succeeds:
  assumes c: "convert_from_path lib (files w) i = Inr images"
    and s: "\<And>fs img p. img \<in> set images \<Longrightarrow> \<exists>b. Image_save lib fs img p (upper f) = Inr b"
  shows "\<exists>w'. pdf_to_image lib i d f w = (Inr (), w') \<and>
           stdout w' = stdout w \<and>
           writes w' = writes w @ map (\<lambda>n. join d (''output_'' @ str n @ ''.'' @ f)) [1..<Suc (length images)] \<and>
           dom (files w') = dom (files w) \<union> set (map (\<lambda>n. join d (''output_'' @ str n @ ''.'' @ f)) [1..<Suc (length images)]) \<and>
           (\<forall>n<length images. \<exists>fs b.
              Image_save lib fs (images ! n) (join d (''output_'' @ str (Suc n) @ ''.'' @ f)) (upper f) = Inr b \<and>
              files w' (join d (''output_'' @ str (Suc n) @ ''.'' @ f)) = Some b)"
proof -
  let ?w = "called Pdf_to_image w"
  obtain r w' where r: "save_images lib d f (enumerate 0 images) ?w = (r, w')"
    by (cases "save_images lib d f (enumerate 0 images) ?w")
  have "fst (save_images lib d f (enumerate 0 images) ?w) = Inr ()"
    by (rule save_images_succeeds) (use s in \<open>auto simp: map_snd_enumerate simp flip: set_map\<close>)
  with r have r': "save_images lib d f (enumerate 0 images) ?w = (Inr (), w')" by simp
  have b: "pdf_to_image_body lib i d f ?w = (Inr (), w')"
    using c r' by (simp add: pdf_to_image_body_def called_def)
  from save_images_writes [OF r'] save_images_logs [OF r']
  have l: "stdout w' = stdout w \<and>
        writes w' = writes w @ map (\<lambda>n. join d (''output_'' @ str n @ ''.'' @ f)) [1..<Suc (length images)] \<and>
        dom (files w') = dom (files w) \<union> set (map (\<lambda>n. join d (''output_'' @ str n @ ''.'' @ f)) [1..<Suc (length images)])"
    by (simp only: enumerate_paths [of "\<lambda>n. join d (''output_'' @ str n @ ''.'' @ f)"]) (simp add: called_def)
  have k: "\<exists>fs b.
      Image_save lib fs (images ! n) (join d (''output_'' @ str (Suc n) @ ''.'' @ f)) (upper f) = Inr b \<and>
      files w' (join d (''output_'' @ str (Suc n) @ ''.'' @ f)) = Some b"
    if "n < length images" for n
  proof -
    have "(n, images ! n) \<in> set (enumerate 0 images)"
      using that by (simp add: in_set_enumerate_eq)
    from save_images_contents [OF r' _ this] show ?thesis
      by (simp add: map_fst_enumerate)
  qed
  from b l k show ?thesis by (simp add: pdf_to_image_def)
qed

text \<open>
  For an existing input and the format \<open>png\<close> or \<open>jpg\<close> (in any letter case), when
  \<^verbatim>\<open>convert_from_path\<close> returns the page images and the image library saves each of
  them under the upper-cased format name, \<open>main\<close> writes exactly one file per page at
  \<^verbatim>\<open>os.path.join(output_dir, 'output_<n>.<fmt>')\<close> for \<open>n\<close> from 1 to the number of
  pages, in page order: the file numbered \<open>n + 1\<close> holds the saved page \<open>n\<close> (counted
  from 0). These paths are pairwise distinct, they are the only new files, nothing is
  printed and \<open>main\<close> returns. An image library that knows the format name \<^verbatim>\<open>PNG\<close>
  meets the condition for \<open>png\<close>.
\<close>

theorem main_pdf_to_image_pages:
  assumes "isfile w (args_input a)"
    and "lower (args_output_format a) = fmt" and "fmt = ''png'' \<or> fmt = ''jpg''"
    and "convert_from_path lib (files w) (args_input a) = Inr images"
    and "\<And>fs img p. img \<in> set images \<Longrightarrow> \<exists>b. Image_save lib fs img p (upper fmt) = Inr b"
  shows "new_writes w (main lib a w) =
           map (\<lambda>n. join (args_output_dir a) (''output_'' @ str n @ ''.'' @ fmt))
             [1..<Suc (length images)] \<and>
         distinct (new_writes w (main lib a w)) \<and>
         length (new_writes w (main lib a w)) = length images \<and>
         dom (files (snd (main lib a w))) = dom (files w) \<union> set (new_writes w (main lib a w)) \<and>
         (\<forall>n<length images. \<exists>fs b.
            Image_save lib fs (images ! n)
              (join (args_output_dir a) (''output_'' @ str (Suc n) @ ''.'' @ fmt)) (upper fmt) = Inr b \<and>
            files (snd (main lib a w))
              (join (args_output_dir a) (''output_'' @ str (Suc n) @ ''.'' @ fmt)) = Some b) \<and>
         new_stdout w (main lib a w) = [] \<and>
         fst (main lib a w) = Inr ()"
proof -
  have m: "main lib a w = pdf_to_image lib (args_input a) (args_output_dir a) fmt w"
    using assms(1-3) by (auto simp: main_def Let_def)
  from pdf_to_image_succeeds [OF assms(4) assms(5), of "args_output_dir a"]
  obtain w' where w': "pdf_to_image lib (args_input a) (args_output_dir a) fmt w = (Inr (), w')"
    "stdout w' = stdout w"
    "writes w' = writes w @ map (\<lambda>n. join (args_output_dir a) (''output_'' @ str n @ ''.'' @ fmt)) [1..<Suc (length images)]"
    "dom (files w') = dom (files w) \<union> set (map (\<lambda>n. join (args_output_dir a) (''output_'' @ str n @ ''.'' @ fmt)) [1..<Suc (length images)])"
    "\<forall>n<length images. \<exists>fs b.
        Image_save lib fs (images ! n)
          (join (args_output_dir a) (''output_'' @ str (Suc n) @ ''.'' @ fmt)) (upper fmt) = Inr b \<and>
        files w' (join (args_output_dir a) (''output_'' @ str (Suc n) @ ''.'' @ fmt)) = Some b"
    by blast
  have n: "new_writes w (main lib a w) =
      map (\<lambda>n. join (args_output_dir a) (''output_'' @ str n @ ''.'' @ fmt)) [1..<Suc (length images)]"
    by (simp add: m w' new_writes_def)
  have d: "distinct (new_writes w (main lib a w))"
    by (simp only: n page_paths_distinct)
  have l: "length (new_writes w (main lib a w)) = length images"
    by (simp only: n length_map length_upt diff_Suc_1)
  have f: "files (snd (main lib a w)) = files w'" by (simp add: m w')
  show ?thesis
    using n d l w'(2-4) w'(5) [folded f] by (simp add: m w'(1) new_stdout_def)
qed

theorem main_pdf_to_image_pages_witness:
  "isfile example_world ''in.pdf'' \<and> lower ''PNG'' = ''png'' \<and>
   convert_from_path example_lib (files example_world) ''in.pdf'' = Inr [''page one'', ''page two''] \<and>
   (\<forall>fs img p. \<exists>b. Image_save example_lib fs img p (upper ''png'') = Inr b) \<and>
   new_writes example_world (main example_lib
     \<lparr>args_input = ''in.pdf'', args_output_format = ''PNG'', args_output_dir = ''out''\<rparr>
     example_world) = [''out/output_1.png'', ''out/output_2.png''] \<and>
   files (snd (main example_lib
     \<lparr>args_input = ''in.pdf'', args_output_format = ''PNG'', args_output_dir = ''out''\<rparr>
     example_world)) ''out/output_1.png'' = Some ''PNG page one'' \<and>
   files (snd (main example_lib
     \<lparr>args_input = ''in.pdf'', args_output_format = ''PNG'', args_output_dir = ''out''\<rparr>
     example_world)) ''out/output_2.png'' = Some ''PNG page two''"
proof -
  let ?a = "\<lparr>args_input = ''in.pdf'', args_output_format = ''PNG'', args_output_dir = ''out''\<rparr>"
  have h1: "isfile example_world (args_input ?a)"
    by (simp add: isfile_def example_world_def)
  have h2: "lower (args_output_format ?a) = ''png''"
    by (simp add: lower_def char_lower_def)
  have h3: "''png'' = ''png'' \<or> ''png'' = ''jpg''" by simp
  have h4: "convert_from_path example_lib (files example_world) (args_input ?a) =
      Inr [''page one'', ''page two'']"
    by (simp add: example_lib_def example_world_def)
  have h5: "\<forall>fs img p. \<exists>b. Image_save example_lib fs img p (upper ''png'') = Inr b"
    by (simp add: example_lib_def)
  have e: "map (\<lambda>n. join ''out'' (''output_'' @ str n @ ''.'' @ ''png'')) [1..<Suc (length [''page one'', ''page two''])] =
      [''out/output_1.png'', ''out/output_2.png'']"
    by code_simp
  have s: "str (Suc 0) = ''1''" "str (Suc (Suc 0)) = ''2''"
    by (simp_all add: str.simps digit_def)
  have u: "upper ''png'' = ''PNG''" by (simp add: upper_def char_upper_def)
  have i: "Image_save example_lib fs img p fmt = Inr (fmt @ '' '' @ img)" for fs img p fmt
    by (simp add: example_lib_def)
  from main_pdf_to_image_pages [OF h1 h2 h3 h4 h5 [rule_format]] h1 h2 h4 h5 e show ?thesis
    by (auto simp: All_less_Suc s u i join_def)
qed

text \<open>
  Claim C2. The claim is that \<open>jpg\<close> as well as \<open>png\<close> gives one file per page. The
  code does not do that for \<open>jpg\<close>: it passes \<^verbatim>\<open>output_format.upper()\<close>, here
  \<^verbatim>\<open>'JPG'\<close>, as the format name to \<^verbatim>\<open>image.save\<close>, and the image library knows the
  JPEG encoder as \<^verbatim>\<open>'JPEG'\<close> only. When the save of the first page raises for that
  name, \<open>pdf_to_image\<close> catches the exception and prints it, and \<open>main\<close> returns
  without having written any file.
\<close>

theorem main_jpg_format_name_rejected:
  assumes "isfile w (args_input a)" and "lower (args_output_format a) = ''jpg''"
    and "convert_from_path lib (files w) (args_input a) = Inr (img # images)"
    and "Image_save lib (files w) img (join (args_output_dir a) ''output_1.jpg'') ''JPG'' = Inl e"
  shows "main lib a w =
           (Inr (), w\<lparr>stdout := stdout w @ [''Error converting PDF to image: '' @ message e],
                      calls := calls w @ [Pdf_to_image]\<rparr>) \<and>
         new_writes w (main lib a w) = [] \<and>
         files (snd (main lib a w)) = files w \<and>
         exit_code (main lib a w) = 0"
proof -
  have s: "str (Suc 0) = ''1''" by (simp add: str.simps digit_def)
  have u: "upper ''jpg'' = ''JPG''" by (simp add: upper_def char_upper_def)
  have m: "main lib a w =
      (Inr (), w\<lparr>stdout := stdout w @ [''Error converting PDF to image: '' @ message e],
                 calls := calls w @ [Pdf_to_image]\<rparr>)"
    using assms
    by (simp add: main_def Let_def pdf_to_image_def pdf_to_image_body_def called_def save_def
        print_def s u)
  show ?thesis
    by (simp add: m new_writes_def exit_code_def)
qed

theorem main_jpg_format_name_rejected_witness:
  "isfile example_world ''in.pdf'' \<and> lower ''jpg'' = ''jpg'' \<and>
   convert_from_path strict_lib (files example_world) ''in.pdf'' = Inr [''page one'', ''page two''] \<and>
   Image_save strict_lib (files example_world) ''page one'' ''out/output_1.jpg'' ''JPG'' =
     Inl (Exception ([CHR 0x27] @ ''JPG'' @ [CHR 0x27])) \<and>
   main strict_lib
     \<lparr>args_input = ''in.pdf'', args_output_format = ''jpg'', args_output_dir = ''out''\<rparr>
     example_world =
   (Inr (), example_world\<lparr>
      stdout := [''Error converting PDF to image: '' @ [CHR 0x27] @ ''JPG'' @ [CHR 0x27]],
      calls := [Pdf_to_image]\<rparr>) \<and>
   new_writes example_world (main strict_lib
     \<lparr>args_input = ''in.pdf'', args_output_format = ''jpg'', args_output_dir = ''out''\<rparr>
     example_world) = []"
proof -
  let ?a = "\<lparr>args_input = ''in.pdf'', args_output_format = ''jpg'', args_output_dir = ''out''\<rparr>"
  have h1: "isfile example_world (args_input ?a)"
    by (simp add: isfile_def example_world_def)
  have h2: "lower (args_output_format ?a) = ''jpg''"
    by (simp add: lower_def char_lower_def)
  have h3: "convert_from_path strict_lib (files example_world) (args_input ?a) =
      Inr (''page one'' # [''page two''])"
    by (simp add: strict_lib_def example_lib_def example_world_def)
  have j: "join ''out'' ''output_1.jpg'' = ''out/output_1.jpg''" by (simp add: join_def)
  have h4: "Image_save strict_lib (files example_world) ''page one''
      (join (args_output_dir ?a) ''output_1.jpg'') ''JPG'' =
      Inl (Exception ([CHR 0x27] @ ''JPG'' @ [CHR 0x27]))"
    by (simp add: strict_lib_def)
  from main_jpg_format_name_rejected [OF h1 h2 h3 h4] h1 h2 h3 h4 show ?thesis
    by (simp add: j new_writes_def example_world_logs)
qed

subsection \<open>The paragraphs of a DOCX\<close>



lemma pages_added_paragraphs:
  "pages_added (pdf @ concat (map (\<lambda>p. [Set_font family pt, Multi_cell w h (para_text p)]) ps)) =
     pages_added pdf"
  by (induction ps) (simp_all add: pages_added_def)









subsection \<open>Paths\<close>

lemma rfind_absent: "c \<notin> set p \<Longrightarrow> rfind p c = - 1"
  by (simp add: rfind_def)

lemma rfind_last: "c \<notin> set b \<Longrightarrow> rfind (a @ c # b) c = int (length a)"
proof -
  assume n: "c \<notin> set b"
  have "takeWhile (\<lambda>x. x \<noteq> c) (rev b @ c # rev a) = takeWhile (\<lambda>x. x \<noteq> c) (rev b)"
    by (rule takeWhile_tail) simp
  also have "\<dots> = rev b" using n by (auto simp: takeWhile_eq_all_conv)
  finally show ?thesis by (simp add: rfind_def)
qed

lemma rfind_append_present:
  assumes "c \<in> set b"
  shows "rfind (h @ b) c = int (length h) + rfind b c"
proof -
  from split_list_last [OF assms] obtain b1 b2 where b: "b = b1 @ c # b2" "c \<notin> set b2" by blast
  have "rfind ((h @ b1) @ c # b2) c = int (length (h @ b1))" using b(2) by (rule rfind_last)
  moreover have "rfind (b1 @ c # b2) c = int (length b1)" using b(2) by (rule rfind_last)
  ultimately show ?thesis by (simp add: b(1))
qed

lemma rfind_append_absent:
  assumes "c \<notin> set b"
  shows "rfind (h @ b) c = rfind h c"
proof (cases "c \<in> set h")
  case True
  from split_list_last [OF True] obtain h1 h2 where h: "h = h1 @ c # h2" "c \<notin> set h2" by blast
  have "rfind (h1 @ c # (h2 @ b)) c = int (length h1)" by (rule rfind_last) (use h(2) assms in simp)
  moreover have "rfind (h1 @ c # h2) c = int (length h1)" using h(2) by (rule rfind_last)
  ultimately show ?thesis by (simp add: h(1))
next
  case False
  with assms show ?thesis by (simp add: rfind_absent)
qed

lemma rfind_bounds: "- 1 \<le> rfind p c \<and> rfind p c < int (length p)"
proof (cases "c \<in> set p")
  case True
  from split_list_last [OF True] obtain a b where p: "p = a @ c # b" "c \<notin> set b" by blast
  from rfind_last [OF p(2), of a] show ?thesis by (simp add: p(1))
next
  case False
  then show ?thesis by (simp add: rfind_absent)
qed

lemma rfind_present: "c \<in> set p \<Longrightarrow> 0 \<le> rfind p c"
proof -
  assume "c \<in> set p"
  from split_list_last [OF this] obtain a b where p: "p = a @ c # b" "c \<notin> set b" by blast
  from rfind_last [OF p(2), of a] show ?thesis by (simp add: p(1))
qed

text \<open>A path is its head, empty or ending with a separator, and a base name without one.\<close>

lemma sep_index_append:
  assumes "CHR ''/'' \<notin> set b" and "h = [] \<or> last h = CHR ''/''"
  shows "rfind (h @ b) (CHR ''/'') + 1 = int (length h)"
proof (cases "h = []")
  case True
  with assms(1) show ?thesis by (simp add: rfind_absent)
next
  case False
  with assms(2) have "h = butlast h @ [CHR ''/'']" by (metis append_butlast_last_id)
  then obtain a where a: "h = a @ [CHR ''/'']" ..
  have "rfind (a @ CHR ''/'' # b) (CHR ''/'') = int (length a)" using assms(1) by (rule rfind_last)
  then show ?thesis by (simp add: a)
qed

lemma path_head_base:
  "\<exists>h b. p = h @ b \<and> CHR ''/'' \<notin> set b \<and> (h = [] \<or> last h = CHR ''/'')"
proof (cases "CHR ''/'' \<in> set p")
  case True
  from split_list_last [OF True] obtain a b where "p = a @ CHR ''/'' # b" "CHR ''/'' \<notin> set b" by blast
  then have "p = (a @ [CHR ''/'']) @ b \<and> CHR ''/'' \<notin> set b \<and> last (a @ [CHR ''/'']) = CHR ''/''"
    by simp
  then show ?thesis by blast
next
  case False
  then have "p = [] @ p \<and> CHR ''/'' \<notin> set p" by simp
  then show ?thesis by blast
qed

lemma basename_append:
  assumes "CHR ''/'' \<notin> set b" and "h = [] \<or> last h = CHR ''/''"
  shows "basename (h @ b) = b"
  by (simp add: basename_def sep_index_append [OF assms])

lemma dirname_append:
  assumes "CHR ''/'' \<notin> set b" and "h = [] \<or> last h = CHR ''/''"
  shows "dirname (h @ b) =
     (if h \<noteq> [] \<and> h \<noteq> replicate (length h) (CHR ''/'') then rstrip_sep h else h)"
  by (simp add: dirname_def sep_index_append [OF assms])

lemma splitext_append:
  assumes "CHR ''/'' \<notin> set b" and "h = [] \<or> last h = CHR ''/''"
  shows "splitext (h @ b) = (h @ fst (splitext b), snd (splitext b))"
proof -
  note s = sep_index_append [OF assms]
  have sb: "rfind b (CHR ''/'') = - 1" using assms(1) by (rule rfind_absent)
  show ?thesis
  proof (cases "CHR ''.'' \<in> set b")
    case True
    define k where "k = nat (rfind b (CHR ''.''))"
    have k: "rfind b (CHR ''.'') = int k" using rfind_present [OF True] by (simp add: k_def)
    have d: "rfind (h @ b) (CHR ''.'') = int (length h) + int k"
      by (simp add: rfind_append_present [OF True] k)
    have c1: "rfind (h @ b) (CHR ''.'') > rfind (h @ b) (CHR ''/'')" using d s by simp
    have n1: "nat (rfind (h @ b) (CHR ''.'')) = length h + k" using d by simp
    have n2: "nat (rfind (h @ b) (CHR ''/'') + 1) = length h" using s by simp
    have c2: "rfind b (CHR ''.'') > rfind b (CHR ''/'')" by (simp add: sb k)
    have n3: "nat (rfind b (CHR ''.'')) = k" by (simp add: k)
    have n4: "nat (rfind b (CHR ''/'') + 1) = 0" by (simp add: sb)
    show ?thesis
      unfolding splitext_def Let_def
      by (simp add: c1 n1 n2 c2 n3 n4 slice_def)
  next
    case False
    have d: "rfind (h @ b) (CHR ''.'') = rfind h (CHR ''.'')" using False by (rule rfind_append_absent)
    have "rfind h (CHR ''.'') < int (length h)" using rfind_bounds [of h] by simp
    then have n: "\<not> rfind (h @ b) (CHR ''.'') > rfind (h @ b) (CHR ''/'')" using s d by simp
    have nb: "rfind b (CHR ''.'') = - 1" using False by (rule rfind_absent)
    show ?thesis using n by (simp add: splitext_def sb nb Let_def)
  qed
qed

lemma splitext_parts: "fst (splitext p) @ snd (splitext p) = p"
  by (simp add: splitext_def Let_def)

lemma splitext_root_set: "set (fst (splitext p)) \<subseteq> set p"
  by (auto simp: splitext_def Let_def dest: in_set_takeD)

subsection \<open>The image-to-image routine\<close>

lemma image_to_image_succeeds:
  assumes "Image_open lib (files w) i = Inr img"
    and "Image_save lib (files w) img (fst (splitext i) @ ''.'' @ f) (upper f) = Inr b"
  shows "image_to_image lib i f w =
     (Inr (), w\<lparr>files := (files w)(fst (splitext i) @ ''.'' @ f \<mapsto> b),
                writes := writes w @ [fst (splitext i) @ ''.'' @ f],
                calls := calls w @ [Image_to_image]\<rparr>)"
  using assms
  by (simp add: image_to_image_def image_to_image_body_def save_def write_file_def called_def Let_def)

lemma image_to_image_writes:
  "set (new_writes w (image_to_image lib i f w)) \<subseteq> {fst (splitext i) @ ''.'' @ f}"
  by (auto simp: image_to_image_def image_to_image_body_def save_def write_file_def called_def
      print_def new_writes_def Let_def split: sum.splits)

lemma sibling_path:
  assumes "CHR ''/'' \<notin> set f"
  shows "dirname (fst (splitext p) @ ''.'' @ f) = dirname p \<and>
         basename (fst (splitext p) @ ''.'' @ f) = fst (splitext (basename p)) @ ''.'' @ f"
proof -
  from path_head_base [of p] obtain h b where
    p: "p = h @ b" and b: "CHR ''/'' \<notin> set b" and h: "h = [] \<or> last h = CHR ''/''" by blast
  let ?r = "fst (splitext b) @ ''.'' @ f"
  have r: "CHR ''/'' \<notin> set ?r" using b assms splitext_root_set [of b] by auto
  have o: "fst (splitext (h @ b)) @ ''.'' @ f = h @ ?r"
    by (simp add: splitext_append [OF b h])
  have "dirname (h @ ?r) = dirname (h @ b)"
    by (simp only: dirname_append [OF r h] dirname_append [OF b h])
  moreover have "basename (h @ ?r) = fst (splitext (basename (h @ b))) @ ''.'' @ f"
    by (simp only: basename_append [OF r h] basename_append [OF b h])
  ultimately show ?thesis unfolding p by (simp only: o simp_thms)
qed

text \<open>
  Claim C8. \<open>image_to_image\<close> has no output directory among its arguments. For a
  format without a separator in it, when the image library opens the input and saves
  the image, the routine writes exactly one file, at the root of the input path (the
  path without its extension) followed by a dot and the format: a path with the
  directory of the input path, and with the base name of the input, its extension
  replaced by the format. By \<open>image_to_image_writes\<close> it writes at no other path,
  whatever the libraries do.
\<close>

theorem image_to_image_beside_input:
  assumes "CHR ''/'' \<notin> set output_format"
    and "Image_open lib (files w) input_file = Inr img"
    and "Image_save lib (files w) img (fst (splitext input_file) @ ''.'' @ output_format)
           (upper output_format) = Inr b"
  shows "image_to_image lib input_file output_format w =
           (Inr (), w\<lparr>files := (files w)(fst (splitext input_file) @ ''.'' @ output_format \<mapsto> b),
                      writes := writes w @ [fst (splitext input_file) @ ''.'' @ output_format],
                      calls := calls w @ [Image_to_image]\<rparr>) \<and>
         dirname (fst (splitext input_file) @ ''.'' @ output_format) = dirname input_file \<and>
         basename (fst (splitext input_file) @ ''.'' @ output_format) =
           fst (splitext (basename input_file)) @ ''.'' @ output_format"
  using image_to_image_succeeds [OF assms(2,3)] sibling_path [OF assms(1), of input_file]
  by blast

theorem image_to_image_beside_input_witness:
  "CHR ''/'' \<notin> set ''jpg'' \<and>
   Image_open example_lib (files example_world) ''pics/photo.png'' = Inr ''photo'' \<and>
   Image_save example_lib (files example_world) ''photo'' ''pics/photo.jpg'' ''JPG'' = Inr ''JPG photo'' \<and>
   image_to_image example_lib ''pics/photo.png'' ''jpg'' example_world =
     (Inr (), example_world\<lparr>files := (files example_world)(''pics/photo.jpg'' \<mapsto> ''JPG photo''),
        writes := [''pics/photo.jpg''], calls := [Image_to_image]\<rparr>) \<and>
   dirname ''pics/photo.jpg'' = ''pics'' \<and> dirname ''pics/photo.png'' = ''pics'' \<and>
   basename ''pics/photo.jpg'' = ''photo.jpg''"
proof -
  have r: "fst (splitext ''pics/photo.png'') = ''pics/photo''" by code_simp
  have u: "upper ''jpg'' = ''JPG''" by (simp add: upper_def char_upper_def)
  have d: "dirname ''pics/photo.png'' = ''pics''" by code_simp
  have s: "fst (splitext (basename ''pics/photo.png'')) = ''photo''" by code_simp
  have h1: "CHR ''/'' \<notin> set ''jpg''" by simp
  have h2: "Image_open example_lib (files example_world) ''pics/photo.png'' = Inr ''photo''"
    by (simp add: example_lib_def example_world_def)
  have h3: "Image_save example_lib (files example_world) ''photo''
      (fst (splitext ''pics/photo.png'') @ ''.'' @ ''jpg'') (upper ''jpg'') = Inr ''JPG photo''"
    by (simp add: example_lib_def u)
  from image_to_image_beside_input [OF h1 h2 h3] h2 h3 show ?thesis
    by (simp add: r u d s example_world_logs)
qed

text \<open>
  Claim C9. When the extension of the input path (as \<^verbatim>\<open>os.path.splitext\<close> gives it) is
  a dot followed by the requested format, the output path of \<open>image_to_image\<close> is
  the input path itself, and a successful save replaces the contents of the input file.
\<close>

theorem image_to_image_same_extension:
  assumes "snd (splitext input_file) = ''.'' @ output_format"
    and "Image_open lib (files w) input_file = Inr img"
    and "Image_save lib (files w) img input_file (upper output_format) = Inr b"
  shows "fst (splitext input_file) @ ''.'' @ output_format = input_file \<and>
         image_to_image lib input_file output_format w =
           (Inr (), w\<lparr>files := (files w)(input_file \<mapsto> b),
                      writes := writes w @ [input_file],
                      calls := calls w @ [Image_to_image]\<rparr>)"
proof -
  have o: "fst (splitext input_file) @ ''.'' @ output_format = input_file"
    using splitext_parts [of input_file] by (simp only: assms(1))
  from assms(3) have "Image_save lib (files w) img
      (fst (splitext input_file) @ ''.'' @ output_format) (upper output_format) = Inr b"
    by (simp only: o)
  from image_to_image_succeeds [OF assms(2) this] o show ?thesis by (simp only: simp_thms)
qed

theorem image_to_image_same_extension_witness:
  "snd (splitext ''pics/photo.png'') = ''.'' @ ''png'' \<and>
   files example_world ''pics/photo.png'' = Some ''PNG photo'' \<and>
   Image_open example_lib (files example_world) ''pics/photo.png'' = Inr ''photo'' \<and>
   Image_save example_lib (files example_world) ''photo'' ''pics/photo.png'' ''PNG'' = Inr ''PNG photo'' \<and>
   image_to_image example_lib ''pics/photo.png'' ''png'' example_world =
     (Inr (), example_world\<lparr>files := (files example_world)(''pics/photo.png'' \<mapsto> ''PNG photo''),
        writes := [''pics/photo.png''], calls := [Image_to_image]\<rparr>)"
proof -
  have u: "upper ''png'' = ''PNG''" by (simp add: upper_def char_upper_def)
  have h1: "snd (splitext ''pics/photo.png'') = ''.'' @ ''png''" by code_simp
  have h2: "Image_open example_lib (files example_world) ''pics/photo.png'' = Inr ''photo''"
    by (simp add: example_lib_def example_world_def)
  have h3: "Image_save example_lib (files example_world) ''photo'' ''pics/photo.png''
      (upper ''png'') = Inr ''PNG photo''"
    by (simp add: example_lib_def u)
  have f: "files example_world ''pics/photo.png'' = Some ''PNG photo''"
    by (simp add: example_world_def)
  from image_to_image_same_extension [OF h1 h2 h3] h1 h2 h3 f show ?thesis
    by (simp add: u example_world_logs)
qed

end
